theory Spec2Isabelle
  imports Complex_Main "HOL-Library.AList"
begin

section \<open>Python values and errors\<close>

text \<open>
  The bar-robot consists of \<^verbatim>\<open>app.py\<close> (measure parsing, quantity scaling, ingredient
  resolution, the dispense loop) and \<^verbatim>\<open>hardware.py\<close> (turret and actuator driver).

  Python \<^verbatim>\<open>float\<close> quantities are modelled as exact rationals (\<^typ>\<open>rat\<close>): every finite
  double is a rational, and the operations below are the exact ones. Rounding error of
  binary floating point, infinities and NaN are outside the model. Python \<^verbatim>\<open>int\<close> is
  \<^typ>\<open>int\<close>. Every exception the modelled code can raise is a value of \<open>error\<close>, returned
  as \<open>Inl\<close>.
\<close>

datatype error = ZeroDivisionError | KeyError

text \<open>Float division \<^verbatim>\<open>a / b\<close>: raises \<^verbatim>\<open>ZeroDivisionError\<close> when the divisor is zero.\<close>

definition fdiv :: "rat \<Rightarrow> rat \<Rightarrow> error + rat" where
  "fdiv a b = (if b = 0 then Inl ZeroDivisionError else Inr (a / b))"

text \<open>
  The builtin \<^verbatim>\<open>round(x)\<close> on a float: the nearest integer, a tie going to the even
  neighbour.
\<close>

definition py_round :: "rat \<Rightarrow> int" where
  "py_round x =
     (let f = \<lfloor>x\<rfloor>; d = x - of_int f
      in if d < 1 / 2 then f
         else if 1 / 2 < d then f + 1
         else if even f then f else f + 1)"

text \<open>The builtin \<^verbatim>\<open>round(x, 2)\<close>: \<open>x\<close> rounded to two decimals, ties to even.\<close>

definition round2 :: "rat \<Rightarrow> rat" where
  "round2 x = of_int (py_round (x * 100)) / 100"

section \<open>Strings\<close>

text \<open>
  Python strings are modelled as \<^typ>\<open>string\<close>, restricted to ASCII text: the digit class
  \<^verbatim>\<open>\d\<close> is \<open>0\<close> to \<open>9\<close>, the whitespace class of \<^verbatim>\<open>\s\<close> and \<^verbatim>\<open>str.strip\<close> is the ASCII
  whitespace (tab, line feed, vertical tab, form feed, carriage return, the separators
  \<open>0x1C\<close> to \<open>0x1F\<close> and the space), and \<^verbatim>\<open>lower\<close> and \<^verbatim>\<open>upper\<close> change the letters
  \<open>A\<close> to \<open>Z\<close> and \<open>a\<close> to \<open>z\<close> only.
\<close>

definition is_space :: "char \<Rightarrow> bool" where
  "is_space c =
     (c \<in> set [CHR 0x09, CHR 0x0A, CHR 0x0B, CHR 0x0C, CHR 0x0D,
               CHR 0x1C, CHR 0x1D, CHR 0x1E, CHR 0x1F, CHR 0x20])"

definition is_digit :: "char \<Rightarrow> bool" where
  "is_digit c = (c \<in> set ''0123456789'')"

definition lower_char :: "char \<Rightarrow> char" where
  "lower_char c =
     (let n = of_char c :: nat in if 65 \<le> n \<and> n \<le> 90 then char_of (n + 32) else c)"

definition upper_char :: "char \<Rightarrow> char" where
  "upper_char c =
     (let n = of_char c :: nat in if 97 \<le> n \<and> n \<le> 122 then char_of (n - 32) else c)"

definition lower :: "string \<Rightarrow> string" where
  "lower s = map lower_char s"

definition upper :: "string \<Rightarrow> string" where
  "upper s = map upper_char s"

definition strip :: "string \<Rightarrow> string" where
  "strip s = rev (dropWhile is_space (rev (dropWhile is_space s)))"

text \<open>\<^verbatim>\<open>txt.startswith(w)\<close> and the substring test \<^verbatim>\<open>w in txt\<close>.\<close>

definition starts_with :: "string \<Rightarrow> string \<Rightarrow> bool" where
  "starts_with w txt = (take (length w) txt = w)"

fun contains :: "string \<Rightarrow> string \<Rightarrow> bool" where
  "contains w [] = (w = [])"
| "contains w (c # cs) = (starts_with w (c # cs) \<or> contains w cs)"

text \<open>
  \<^verbatim>\<open>float(s)\<close> on the texts the parser passes to it: a non-empty run of digits,
  optionally followed by a point and another non-empty run of digits. On these
  \<^verbatim>\<open>float\<close> does not raise.
\<close>

definition digit_val :: "char \<Rightarrow> nat" where
  "digit_val c = of_char c - 48"

definition digits_val :: "string \<Rightarrow> nat" where
  "digits_val ds = fold (\<lambda>c n. 10 * n + digit_val c) ds 0"

definition py_float :: "string \<Rightarrow> rat" where
  "py_float s =
     (let w = takeWhile (\<lambda>c. c \<noteq> CHR ''.'') s;
          f = drop (Suc (length w)) s
      in of_nat (digits_val w) + of_nat (digits_val f) / 10 ^ length f)"

section \<open>Measure parsing (app.py)\<close>

definition garnish_words :: "string list" where
  "garnish_words =
     [''slice'', ''wedge'', ''dash'', ''pinch'', ''sprig'', ''piece'', ''cube'', ''twist'']"

text \<open>
  The alternation \<^verbatim>\<open>(oz|ounce|ounces|ml|cl)\<close> at the start of a text takes the first
  alternative that matches; \<^verbatim>\<open>re.search\<close> takes the leftmost position with a match.
\<close>

definition unit_words :: "string list" where
  "unit_words = [''oz'', ''ounce'', ''ounces'', ''ml'', ''cl'']"

definition match_unit :: "string \<Rightarrow> string option" where
  "match_unit txt = find (\<lambda>u. starts_with u txt) unit_words"

fun search_unit :: "string \<Rightarrow> string option" where
  "search_unit [] = None"
| "search_unit (c # cs) =
     (case match_unit (c # cs) of Some u \<Rightarrow> Some u | None \<Rightarrow> search_unit cs)"

text \<open>
  \<^verbatim>\<open>re.match(r"(\d+)\s+(\d)/(\d)", txt)\<close>: the longest run of digits, the longest run
  of whitespace (both non-empty; a shorter run cannot match, since the next character
  is then a digit or a space), one digit, a slash, one digit. The groups are returned.
\<close>

definition match_mixed :: "string \<Rightarrow> (string \<times> char \<times> char) option" where
  "match_mixed txt =
     (let whole = takeWhile is_digit txt;
          rest = dropWhile is_digit txt
      in if whole = [] \<or> takeWhile is_space rest = [] then None
         else (case dropWhile is_space rest of
                 n # s # d # _ \<Rightarrow>
                   if is_digit n \<and> s = CHR ''/'' \<and> is_digit d then Some (whole, n, d)
                   else None
               | _ \<Rightarrow> None))"

text \<open>
  \<^verbatim>\<open>re.match(r"(\d+/\d+|\d+(?:\.\d+)?)\s*(oz|ounce|ounces|ml|cl)?", txt)\<close>: the first
  group is digits, slash, digits if the text starts so, else digits with an optional
  point and digits; what follows (optional whitespace, optional unit) always matches,
  so the match fails only when the text does not start with a digit. The second group
  is \<^verbatim>\<open>None\<close> when no unit follows the whitespace.
\<close>

definition match_simple :: "string \<Rightarrow> (string \<times> string option) option" where
  "match_simple txt =
     (let a = takeWhile is_digit txt;
          r = dropWhile is_digit txt
      in if a = [] then None
         else
           (let num_txt =
                  (case r of
                     [] \<Rightarrow> a
                   | c # r1 \<Rightarrow>
                       if c = CHR ''/'' \<and> takeWhile is_digit r1 \<noteq> []
                         then a @ ''/'' @ takeWhile is_digit r1
                       else if c = CHR ''.'' \<and> takeWhile is_digit r1 \<noteq> []
                         then a @ ''.'' @ takeWhile is_digit r1
                       else a)
            in Some (num_txt, match_unit (dropWhile is_space (drop (length num_txt) txt)))))"

text \<open>The conversion at the end of \<^verbatim>\<open>_qty_to_oz\<close>.\<close>

definition convert :: "string \<Rightarrow> rat \<Rightarrow> rat" where
  "convert unit qty =
     (if unit = ''ml'' then qty * (33814 / 1000000)
      else if unit = ''cl'' then qty * (33814 / 100000)
      else qty)"

text \<open>
  \<^verbatim>\<open>_qty_to_oz(raw)\<close>. The argument is \<^verbatim>\<open>None\<close> or a string. The two divisions
  \<^verbatim>\<open>num / den\<close> and \<^verbatim>\<open>float(a) / float(b)\<close> raise when the denominator is zero.
\<close>

definition qty_to_oz :: "string option \<Rightarrow> error + rat" where
  "qty_to_oz raw_measure =
     (case raw_measure of
        None \<Rightarrow> Inr 0
      | Some r \<Rightarrow>
          if r = [] then Inr 0
          else
            (let txt = lower (strip r)
             in if list_ex (\<lambda>w. contains w txt) garnish_words then Inr 0
                else
                  (case match_mixed txt of
                     Some (whole, n, d) \<Rightarrow>
                       (case fdiv (py_float [n]) (py_float [d]) of
                          Inl e \<Rightarrow> Inl e
                        | Inr fraction \<Rightarrow>
                            (let qty = py_float whole + fraction;
                                 unit = (case search_unit txt of Some u \<Rightarrow> u | None \<Rightarrow> ''oz'')
                             in Inr (round2 (convert unit qty))))
                   | None \<Rightarrow>
                       (case match_simple txt of
                          None \<Rightarrow> Inr 0
                        | Some (num_txt, u) \<Rightarrow>
                            (case (if CHR ''/'' \<in> set num_txt
                                   then fdiv (py_float (takeWhile (\<lambda>c. c \<noteq> CHR ''/'') num_txt))
                                          (py_float (takeWhile (\<lambda>c. c \<noteq> CHR ''/'')
                                             (drop 1 (dropWhile (\<lambda>c. c \<noteq> CHR ''/'') num_txt))))
                                   else Inr (py_float num_txt)) of
                               Inl e \<Rightarrow> Inl e
                             | Inr qty \<Rightarrow>
                                 (let unit = (case u of Some v \<Rightarrow> v | None \<Rightarrow> [])
                                  in Inr (round2 (convert unit qty))))))))"

section \<open>Quantity scaling (app.py)\<close>

text \<open>
  \<^verbatim>\<open>_nearest_multiple(value, step)\<close> is \<^verbatim>\<open>math.floor((value / step) + 0.5) * step\<close>.
\<close>

definition nearest_multiple :: "rat \<Rightarrow> rat \<Rightarrow> error + rat" where
  "nearest_multiple v step =
     (case fdiv v step of
        Inl e \<Rightarrow> Inl e
      | Inr q \<Rightarrow> Inr (of_int \<lfloor>q + 1 / 2\<rfloor> * step))"

text \<open>
  An ingredient line of a recipe is the dict \<^verbatim>\<open>{"item": ..., "qty_oz": ..., "raw": ...}\<close>;
  a recipe is the dict written to \<^verbatim>\<open>recipes.json\<close>.
\<close>

record ingredient =
  item :: string
  qty_oz :: rat
  raw :: string

record recipe =
  recipe_id :: string
  name :: string
  image :: string
  instructions :: string
  ingredients :: "ingredient list"

text \<open>
  The configuration dict as \<^verbatim>\<open>load_config\<close> returns it. An empty slot is \<^verbatim>\<open>None\<close>. The
  key \<^verbatim>\<open>shot_size\<close> is read with \<^verbatim>\<open>cfg.get("shot_size", 1.5)\<close>, so its absence is a
  value of the model; the other keys are read with \<^verbatim>\<open>cfg[...]\<close> and are always set by
  \<^verbatim>\<open>load_config\<close>. The dicts \<^verbatim>\<open>substitutions\<close> and \<^verbatim>\<open>pins\<close> are association lists in
  insertion order, read with \<^const>\<open>map_of\<close>.
\<close>

record config =
  shot_size :: "rat option"
  slots :: "string option list"
  pantry :: "string list"
  substitutions :: "(string \<times> string) list"
  safe_mode :: bool
  pins :: "(string \<times> int) list"

text \<open>
  \<^verbatim>\<open>_scale(lst)\<close>: the loop \<^verbatim>\<open>for d in lst: if d["qty_oz"] > 0: d["qty_oz"] = round(d["qty_oz"] * factor, 2)\<close>
  updates the dicts in place and the function returns the same list. The dicts of
  the list are taken to be distinct objects, as \<^verbatim>\<open>_download_all\<close> builds them.
\<close>

fun scale_loop :: "rat \<Rightarrow> ingredient list \<Rightarrow> ingredient list" where
  "scale_loop factor [] = []"
| "scale_loop factor (d # ds) =
     (if 0 < qty_oz d then d\<lparr>qty_oz := round2 (qty_oz d * factor)\<rparr> else d)
       # scale_loop factor ds"

definition liquids :: "ingredient list \<Rightarrow> rat list" where
  "liquids lst = map qty_oz (filter (\<lambda>d. 0 < qty_oz d) lst)"

definition scale :: "ingredient list \<Rightarrow> error + ingredient list" where
  "scale lst =
     (case liquids lst of
        [] \<Rightarrow> Inr lst
      | q # qs \<Rightarrow>
          (case fdiv (3 / 2) (fold min qs q) of
             Inl e \<Rightarrow> Inl e
           | Inr factor \<Rightarrow> Inr (scale_loop factor lst)))"

text \<open>
  \<^verbatim>\<open>scale_for_slots(recipe, cfg)\<close>. The loop of step 3 copies every dict, rescales the
  positive quantities, snaps those whose item is in a slot, rounds, and appends the copy
  to \<^verbatim>\<open>scaled\<close>.
\<close>

fun rescale_loop ::
  "config \<Rightarrow> rat \<Rightarrow> rat \<Rightarrow> ingredient list \<Rightarrow> ingredient list \<Rightarrow> error + ingredient list"
where
  "rescale_loop cfg shot base_factor [] scaled = Inr scaled"
| "rescale_loop cfg shot base_factor (d # ds) scaled =
     (if 0 < qty_oz d then
        (let q = qty_oz d * base_factor in
         if Some (item d) \<in> set (slots cfg) then
           (case nearest_multiple q shot of
              Inl e \<Rightarrow> Inl e
            | Inr q' \<Rightarrow>
                rescale_loop cfg shot base_factor ds (scaled @ [d\<lparr>qty_oz := round2 q'\<rparr>]))
         else rescale_loop cfg shot base_factor ds (scaled @ [d\<lparr>qty_oz := round2 q\<rparr>]))
      else rescale_loop cfg shot base_factor ds (scaled @ [d]))"

definition shot_of :: "config \<Rightarrow> rat" where
  "shot_of cfg = (case shot_size cfg of None \<Rightarrow> 3 / 2 | Some s \<Rightarrow> s)"

definition slot_liq :: "config \<Rightarrow> ingredient list \<Rightarrow> ingredient list" where
  "slot_liq cfg items = filter (\<lambda>d. Some (item d) \<in> set (slots cfg) \<and> 0 < qty_oz d) items"

definition scale_for_slots :: "recipe \<Rightarrow> config \<Rightarrow> error + ingredient list" where
  "scale_for_slots r cfg =
     (let shot = shot_of cfg;
          items = ingredients r
      in case slot_liq cfg items of
           [] \<Rightarrow> Inr items
         | d # ds \<Rightarrow>
             (let anchor_qty = fold max (map qty_oz ds) (qty_oz d)
              in case nearest_multiple anchor_qty shot of
                   Inl e \<Rightarrow> Inl e
                 | Inr t \<Rightarrow>
                     (let target = (if t = 0 then shot else t)
                      in case fdiv target anchor_qty of
                           Inl e \<Rightarrow> Inl e
                         | Inr base_factor \<Rightarrow> rescale_loop cfg shot base_factor items [])))"

section \<open>Configuration and ingredient resolution (app.py)\<close>



text \<open>
  \<^verbatim>\<open>_avail(item, cfg)\<close> and \<^verbatim>\<open>_slot_for(item, cfg)\<close>. The test \<^verbatim>\<open>sub and (...)\<close> is
  false for a missing substitution and for the empty string. \<^verbatim>\<open>list.index\<close> is called
  only on a member of the list, where it is the number of elements before the first
  occurrence.
\<close>

definition avail :: "string \<Rightarrow> config \<Rightarrow> bool" where
  "avail i cfg =
     (let it = lower i
      in if Some it \<in> set (slots cfg) \<or> it \<in> set (pantry cfg) then True
         else (case map_of (substitutions cfg) it of
                 None \<Rightarrow> False
               | Some sub \<Rightarrow>
                   sub \<noteq> [] \<and> (Some sub \<in> set (slots cfg) \<or> sub \<in> set (pantry cfg))))"

definition index_of :: "'a list \<Rightarrow> 'a \<Rightarrow> int" where
  "index_of xs x = int (length (takeWhile (\<lambda>y. y \<noteq> x) xs))"

definition slot_for :: "string \<Rightarrow> config \<Rightarrow> int option" where
  "slot_for i cfg =
     (let it = lower i
      in if Some it \<in> set (slots cfg) then Some (index_of (slots cfg) (Some it))
         else (case map_of (substitutions cfg) it of
                 None \<Rightarrow> None
               | Some sub \<Rightarrow>
                   if sub \<noteq> [] \<and> Some sub \<in> set (slots cfg)
                   then Some (index_of (slots cfg) (Some sub))
                   else None))"

definition parse_ingredients :: "recipe \<Rightarrow> (string \<times> rat) list" where
  "parse_ingredients r = map (\<lambda>i. (item i, qty_oz i)) (ingredients r)"

section \<open>Turret and actuator (hardware.py)\<close>

text \<open>
  The module's globals are the fields of \<open>hardware\<close>. The GPIO backend is abstract: the
  calls made on it are recorded, oldest first, in \<open>gpio_calls\<close>, and the lines the module
  prints in \<open>printed\<close>. \<^verbatim>\<open>time.sleep\<close> is not modelled.
\<close>

datatype gpio_call =
    GPIO_setmode
  | GPIO_setup "int list"
  | GPIO_output int bool
  | GPIO_cleanup

datatype printed_line =
    Pin_map_updated "(string \<times> int) list"
  | Safe_mode_set bool
  | Safe_would_rotate int int
  | Rotated_to int
  | Safe_would_press int
  | Actuator_press int int

record hardware =
  pin_map :: "(string \<times> int) list"
  SAFE_MODE :: bool
  current_slot :: int
  gpio_ready :: bool
  gpio_calls :: "gpio_call list"
  printed :: "printed_line list"

definition TOTAL_SLOTS :: int where
  "TOTAL_SLOTS = 12"

definition STEPS_PER_REV :: int where
  "STEPS_PER_REV = 200"

definition MICROSTEP :: int where
  "MICROSTEP = 8"

text \<open>\<^verbatim>\<open>int((STEPS_PER_REV * MICROSTEP) / TOTAL_SLOTS)\<close> truncates \<open>133.33\<close> to \<open>133\<close>.\<close>

definition STEPS_PER_SLOT :: int where
  "STEPS_PER_SLOT = (STEPS_PER_REV * MICROSTEP) div TOTAL_SLOTS"

definition initial_hardware :: hardware where
  "initial_hardware =
     \<lparr>pin_map = [(''DIR'', 20), (''STEP'', 21), (''ENABLE'', 16), (''ACTUATOR'', 26)],
      SAFE_MODE = True,
      current_slot = 0,
      gpio_ready = False,
      gpio_calls = [],
      printed = []\<rparr>"

definition gpio :: "gpio_call \<Rightarrow> hardware \<Rightarrow> hardware" where
  "gpio c hw = hw\<lparr>gpio_calls := gpio_calls hw @ [c]\<rparr>"

definition print :: "printed_line \<Rightarrow> hardware \<Rightarrow> hardware" where
  "print l hw = hw\<lparr>printed := printed hw @ [l]\<rparr>"

text \<open>\<^verbatim>\<open>_pin_map[signal]\<close> raises \<^verbatim>\<open>KeyError\<close> for a missing key.\<close>

definition pin :: "hardware \<Rightarrow> string \<Rightarrow> error + int" where
  "pin hw signal =
     (case map_of (pin_map hw) signal of None \<Rightarrow> Inl KeyError | Some p \<Rightarrow> Inr p)"

text \<open>
  \<^verbatim>\<open>set_pin_map(new_map)\<close>: the comprehension builds a dict of the upper-cased, non-empty
  keys, and \<^verbatim>\<open>update\<close> stores its pairs in \<^verbatim>\<open>_pin_map\<close>.
\<close>

definition set_pin_map :: "(string \<times> int) list \<Rightarrow> hardware \<Rightarrow> hardware" where
  "set_pin_map new_map hw =
     (let hw1 = (if gpio_ready hw then (gpio GPIO_cleanup hw)\<lparr>gpio_ready := False\<rparr> else hw);
          upd = fold (\<lambda>(k, v). AList.update (upper k) v)
                  (filter (\<lambda>(k, v). k \<noteq> []) new_map) [];
          pm = fold (\<lambda>(k, v). AList.update k v) upd (pin_map hw1)
      in print (Pin_map_updated pm) (hw1\<lparr>pin_map := pm\<rparr>))"

definition ensure_gpio :: "hardware \<Rightarrow> error + hardware" where
  "ensure_gpio hw =
     (if gpio_ready hw \<or> SAFE_MODE hw then Inr hw
      else
        (let hw1 = gpio (GPIO_setup (map snd (pin_map hw))) (gpio GPIO_setmode hw)
         in case pin hw1 ''ENABLE'' of
              Inl e \<Rightarrow> Inl e
            | Inr p \<Rightarrow> Inr ((gpio (GPIO_output p False) hw1)\<lparr>gpio_ready := True\<rparr>)))"

definition cleanup :: "hardware \<Rightarrow> error + hardware" where
  "cleanup hw =
     (if gpio_ready hw then
        (case pin hw ''ENABLE'' of
           Inl e \<Rightarrow> Inl e
         | Inr p \<Rightarrow> Inr (gpio GPIO_cleanup (gpio (GPIO_output p True) hw)))
      else Inr hw)"

definition set_safe_mode :: "bool \<Rightarrow> hardware \<Rightarrow> hardware" where
  "set_safe_mode enabled hw = print (Safe_mode_set enabled) (hw\<lparr>SAFE_MODE := enabled\<rparr>)"

text \<open>The pulse loop \<^verbatim>\<open>for _ in range(steps)\<close> of \<^verbatim>\<open>rotate_to_slot\<close>.\<close>

fun step_pulses :: "nat \<Rightarrow> hardware \<Rightarrow> error + hardware" where
  "step_pulses 0 hw = Inr hw"
| "step_pulses (Suc n) hw =
     (case pin hw ''STEP'' of
        Inl e \<Rightarrow> Inl e
      | Inr p \<Rightarrow> step_pulses n (gpio (GPIO_output p False) (gpio (GPIO_output p True) hw)))"

definition rotate_to_slot :: "int \<Rightarrow> hardware \<Rightarrow> error + hardware" where
  "rotate_to_slot slot hw =
     (if slot = current_slot hw then Inr hw
      else if SAFE_MODE hw then
        Inr ((print (Safe_would_rotate (current_slot hw) slot) hw)\<lparr>current_slot := slot\<rparr>)
      else
        (case ensure_gpio hw of
           Inl e \<Rightarrow> Inl e
         | Inr hw1 \<Rightarrow>
             (let delta = (slot - current_slot hw1) mod TOTAL_SLOTS;
                  steps = delta * STEPS_PER_SLOT
              in case pin hw1 ''DIR'' of
                   Inl e \<Rightarrow> Inl e
                 | Inr d \<Rightarrow>
                     (case step_pulses (nat steps) (gpio (GPIO_output d True) hw1) of
                        Inl e \<Rightarrow> Inl e
                      | Inr hw2 \<Rightarrow> Inr (print (Rotated_to slot) (hw2\<lparr>current_slot := slot\<rparr>))))))"

text \<open>
  The loop \<^verbatim>\<open>for i in range(repetitions)\<close> of \<^verbatim>\<open>press_actuator\<close>: the first argument
  counts the iterations left, the second is \<open>i\<close>.
\<close>

fun press_loop :: "nat \<Rightarrow> int \<Rightarrow> int \<Rightarrow> hardware \<Rightarrow> error + hardware" where
  "press_loop 0 i repetitions hw = Inr hw"
| "press_loop (Suc n) i repetitions hw =
     (case pin hw ''ACTUATOR'' of
        Inl e \<Rightarrow> Inl e
      | Inr p \<Rightarrow>
          press_loop n (i + 1) repetitions
            (print (Actuator_press (i + 1) repetitions)
               (gpio (GPIO_output p False) (gpio (GPIO_output p True) hw))))"

definition press_actuator :: "int \<Rightarrow> hardware \<Rightarrow> error + hardware" where
  "press_actuator repetitions hw =
     (if SAFE_MODE hw then Inr (print (Safe_would_press repetitions) hw)
      else
        (case ensure_gpio hw of
           Inl e \<Rightarrow> Inl e
         | Inr hw1 \<Rightarrow> press_loop (nat repetitions) 0 repetitions hw1))"

text \<open>A call of the module's public interface, and a sequence of calls run in order.\<close>

datatype hw_call =
    Rotate_to_slot int
  | Press_actuator int
  | Set_pin_map "(string \<times> int) list"
  | Set_safe_mode bool
  | Cleanup

fun do_call :: "hw_call \<Rightarrow> hardware \<Rightarrow> error + hardware" where
  "do_call (Rotate_to_slot slot) hw = rotate_to_slot slot hw"
| "do_call (Press_actuator repetitions) hw = press_actuator repetitions hw"
| "do_call (Set_pin_map new_map) hw = Inr (set_pin_map new_map hw)"
| "do_call (Set_safe_mode enabled) hw = Inr (set_safe_mode enabled hw)"
| "do_call Cleanup hw = cleanup hw"

fun run_calls :: "hw_call list \<Rightarrow> hardware \<Rightarrow> error + hardware" where
  "run_calls [] hw = Inr hw"
| "run_calls (c # cs) hw =
     (case do_call c hw of Inl e \<Rightarrow> Inl e | Inr hw1 \<Rightarrow> run_calls cs hw1)"

fun is_motion :: "hw_call \<Rightarrow> bool" where
  "is_motion (Rotate_to_slot slot) = True"
| "is_motion (Press_actuator repetitions) = True"
| "is_motion c = False"

section \<open>Making a drink (app.py)\<close>

text \<open>
  The messages passed to \<^verbatim>\<open>flash\<close>, and the loop over the ingredients of
  \<^verbatim>\<open>make_drink\<close>. The loop ends the request at a missing ingredient; after the last
  ingredient the drink is announced ready.
\<close>

datatype flash =
    No_recipe string
  | Missing string
  | Pulling string
  | Adding string
  | Dispensing rat
  | Pantry_add rat string
  | Ready string

fun dispense_loop ::
  "config \<Rightarrow> string \<Rightarrow> nat \<Rightarrow> (string \<times> rat) list \<Rightarrow> flash list \<Rightarrow> hardware
     \<Rightarrow> error + flash list \<times> hardware"
where
  "dispense_loop cfg drink_name idx [] flashed hw = Inr (flashed @ [Ready drink_name], hw)"
| "dispense_loop cfg drink_name idx ((i, qty) # rest) flashed hw =
     (if \<not> avail i cfg then Inr (flashed @ [Missing i], hw)
      else
        (let flashed1 = flashed @ [if idx = 0 then Pulling i else Adding i]
         in case slot_for i cfg of
              Some slot \<Rightarrow>
                (case rotate_to_slot slot hw of
                   Inl e \<Rightarrow> Inl e
                 | Inr hw1 \<Rightarrow>
                     (case press_actuator (py_round qty) hw1 of
                        Inl e \<Rightarrow> Inl e
                      | Inr hw2 \<Rightarrow>
                          dispense_loop cfg drink_name (Suc idx) rest
                            (flashed1 @ [Dispensing qty]) hw2))
            | None \<Rightarrow>
                dispense_loop cfg drink_name (Suc idx) rest
                  (flashed1 @ [Pantry_add qty i]) hw))"

text \<open>
  \<^verbatim>\<open>make_drink(name)\<close>, with the results of \<^verbatim>\<open>load_config()\<close> and \<^verbatim>\<open>load_recipes()\<close> as
  arguments.
\<close>

definition make_drink ::
  "config \<Rightarrow> recipe list \<Rightarrow> string \<Rightarrow> hardware \<Rightarrow> error + flash list \<times> hardware"
where
  "make_drink cfg recipes drink_name hw =
     (let hw1 = set_safe_mode (safe_mode cfg) (set_pin_map (pins cfg) hw)
      in case find (\<lambda>d. lower (name d) = lower drink_name) recipes of
           None \<Rightarrow> Inr ([No_recipe drink_name], hw1)
         | Some drink \<Rightarrow> dispense_loop cfg (name drink) 0 (parse_ingredients drink) [] hw1)"

section \<open>A bar and a drink\<close>

definition gin :: ingredient where
  "gin = \<lparr>item = ''gin'', qty_oz = 2, raw = ''2 oz''\<rparr>"

definition vermouth :: ingredient where
  "vermouth = \<lparr>item = ''vermouth'', qty_oz = 1 / 2, raw = ''1/2 oz''\<rparr>"


definition martini :: "ingredient list \<Rightarrow> recipe" where
  "martini ings =
     \<lparr>recipe_id = ''11728'', name = ''Martini'', image = [], instructions = ''Stir.'',
      ingredients = ings\<rparr>"

definition bar :: config where
  "bar =
     \<lparr>shot_size = Some (3 / 2),
      slots = [Some ''gin'', None, None, None, None, None, None, None, None, None, None, None],
      pantry = [''vermouth''],
      substitutions = [(''dry vermouth'', ''vermouth''), (''genever'', ''gin'')],
      safe_mode = False,
      pins = [(''DIR'', 20), (''STEP'', 21), (''ENABLE'', 16), (''ACTUATOR'', 26)]\<rparr>"

text \<open>
  The four signals the driver reads from \<^verbatim>\<open>_pin_map\<close>, and the calls whose slot argument
  is a turret position.
\<close>

definition has_pins :: "hardware \<Rightarrow> bool" where
  "has_pins hw =
     list_all (\<lambda>k. map_of (pin_map hw) k \<noteq> None) [''DIR'', ''STEP'', ''ENABLE'', ''ACTUATOR'']"

definition slot_in_range :: "hardware \<Rightarrow> bool" where
  "slot_in_range hw = (0 \<le> current_slot hw \<and> current_slot hw < TOTAL_SLOTS)"

fun targets_turret :: "hw_call \<Rightarrow> bool" where
  "targets_turret (Rotate_to_slot slot) = (0 \<le> slot \<and> slot < TOTAL_SLOTS)"
| "targets_turret c = True"


section \<open>Properties of the rounding helpers\<close>

lemma floor_rat_numeral_divide [simp]:
  "\<lfloor>numeral a / numeral b :: rat\<rfloor> = numeral a div numeral b"
  by (metis floor_divide_of_int_eq of_int_numeral)

lemma py_round_close: "\<bar>of_int (py_round x) - x\<bar> \<le> 1 / 2"
proof -
  have "of_int \<lfloor>x\<rfloor> \<le> x" "x < of_int \<lfloor>x\<rfloor> + 1" by linarith+
  then show ?thesis unfolding py_round_def Let_def by (auto simp: abs_le_iff)
qed

lemma py_round_tie_even:
  assumes "\<bar>of_int (py_round x) - x\<bar> = 1 / 2" shows "even (py_round x)"
proof -
  have fl: "of_int \<lfloor>x\<rfloor> \<le> x" "x < of_int \<lfloor>x\<rfloor> + 1" by linarith+
  show ?thesis
  proof (cases "x - of_int \<lfloor>x\<rfloor> < 1 / 2")
    case True
    then have "py_round x = \<lfloor>x\<rfloor>" by (simp add: py_round_def Let_def)
    with assms True fl have False by linarith
    then show ?thesis ..
  next
    case False
    show ?thesis
    proof (cases "1 / 2 < x - of_int \<lfloor>x\<rfloor>")
      case True
      then have "py_round x = \<lfloor>x\<rfloor> + 1" using False by (simp add: py_round_def Let_def)
      with assms True fl have False by linarith
      then show ?thesis ..
    next
      case F2: False
      with False show ?thesis by (simp add: py_round_def Let_def)
    qed
  qed
qed

lemma py_round_of_int [simp]: "py_round (of_int k) = k"
  by (simp add: py_round_def Let_def)

lemma py_round_ge:
  assumes "of_int k \<le> x" shows "k \<le> py_round x"
proof -
  have "k \<le> \<lfloor>x\<rfloor>" using assms by (simp add: le_floor_iff)
  moreover have "\<lfloor>x\<rfloor> \<le> py_round x" by (simp add: py_round_def Let_def)
  ultimately show ?thesis by linarith
qed

lemma py_round_numeral [simp]: "py_round (numeral n) = numeral n"
  using py_round_of_int [of "numeral n"] by simp

lemma round2_ge:
  assumes "of_int k / 100 \<le> x"
  shows "of_int k / 100 \<le> round2 x"
proof -
  from assms have "of_int k \<le> x * 100" by (simp add: field_simps)
  then have "k \<le> py_round (x * 100)" by (rule py_round_ge)
  then have "(of_int k :: rat) \<le> of_int (py_round (x * 100))" by simp
  then show ?thesis by (simp add: round2_def divide_right_mono)
qed



section \<open>Nearest multiple\<close>

text \<open>
  For a positive step the result is an integer multiple of the step, at distance at most
  half a step from the value; a value exactly halfway between two multiples goes to the
  upper one, since \<open>\<lfloor>k + 1/2 + 1/2\<rfloor> = k + 1\<close>.
\<close>

lemma nearest_multiple_is_multiple:
  "step \<noteq> 0 \<Longrightarrow> \<exists>k::int. nearest_multiple v step = Inr (of_int k * step)"
  by (simp add: nearest_multiple_def fdiv_def)

lemma nearest_multiple_closest:
  assumes "0 < step" "nearest_multiple v step = Inr m"
  shows "\<bar>m - v\<bar> \<le> step / 2"
proof -
  define q where "q = v / step"
  have m: "m = of_int \<lfloor>q + 1 / 2\<rfloor> * step" using assms by (simp add: nearest_multiple_def fdiv_def q_def)
  have v: "v = q * step" using assms by (simp add: q_def)
  have "of_int \<lfloor>q + 1 / 2\<rfloor> \<le> q + 1 / 2" "q + 1 / 2 < of_int \<lfloor>q + 1 / 2\<rfloor> + 1" by linarith+
  then have "\<bar>of_int \<lfloor>q + 1 / 2\<rfloor> - q\<bar> \<le> 1 / 2" by linarith
  then have "\<bar>of_int \<lfloor>q + 1 / 2\<rfloor> - q\<bar> * step \<le> 1 / 2 * step" using assms(1) by (simp add: mult_right_mono)
  moreover have "\<bar>m - v\<bar> = \<bar>of_int \<lfloor>q + 1 / 2\<rfloor> - q\<bar> * step" using assms(1) by (simp add: m v abs_mult left_diff_distrib[symmetric])
  ultimately show ?thesis by simp
qed

lemma nearest_multiple_tie_upper:
  assumes "0 < step" "v = (of_int k + 1 / 2) * step"
  shows "nearest_multiple v step = Inr ((of_int k + 1) * step)"
  using assms by (simp add: nearest_multiple_def fdiv_def)


text \<open>
  C1. The docstring of \<^verbatim>\<open>_nearest_multiple\<close> promises that a value exactly halfway
  between two multiples rounds down to the lower one, with the examples
  \<open>2.25 \<rightarrow> 1.5\<close>, \<open>2.99 \<rightarrow> 3.0\<close> and \<open>3.76 \<rightarrow> 4.5\<close> for step \<open>1.5\<close>. The code
  returns \<open>3.0\<close> for \<open>2.25\<close>: the halfway value goes to the upper multiple. The other two
  examples come out as documented.
\<close>

theorem nearest_multiple_halfway_goes_up:
  "nearest_multiple (9 / 4) (3 / 2) = Inr 3
   \<and> nearest_multiple (9 / 4) (3 / 2) \<noteq> Inr (3 / 2)
   \<and> nearest_multiple (299 / 100) (3 / 2) = Inr 3
   \<and> nearest_multiple (94 / 25) (3 / 2) = Inr (9 / 2)"
  by (simp add: nearest_multiple_def fdiv_def)

section \<open>Normalising a recipe to the reference shot\<close>










section \<open>Slot-aware rescaling\<close>








section \<open>Frame properties of the driver\<close>

text \<open>
  Recording a backend call or a printed line changes nothing else of the driver's state,
  and the pin lookups depend on the pin map only.
\<close>

lemma gpio_keeps:
  "pin_map (gpio c hw) = pin_map hw" "current_slot (gpio c hw) = current_slot hw"
  "SAFE_MODE (gpio c hw) = SAFE_MODE hw" "gpio_ready (gpio c hw) = gpio_ready hw"
  "printed (gpio c hw) = printed hw"
  by (simp_all add: gpio_def)

lemma print_keeps:
  "pin_map (print l hw) = pin_map hw" "current_slot (print l hw) = current_slot hw"
  "SAFE_MODE (print l hw) = SAFE_MODE hw" "gpio_ready (print l hw) = gpio_ready hw"
  "gpio_calls (print l hw) = gpio_calls hw"
  by (simp_all add: print_def)

lemma pin_frame:
  "pin (gpio c hw) k = pin hw k" "pin (print l hw) k = pin hw k"
  "pin (hw\<lparr>current_slot := s\<rparr>) k = pin hw k" "pin (hw\<lparr>gpio_ready := b\<rparr>) k = pin hw k"
  by (simp_all add: pin_def gpio_keeps print_keeps)

lemma has_pins_frame:
  "has_pins (gpio c hw) = has_pins hw" "has_pins (print l hw) = has_pins hw"
  "has_pins (hw\<lparr>current_slot := s\<rparr>) = has_pins hw"
  "has_pins (hw\<lparr>gpio_ready := b\<rparr>) = has_pins hw"
  by (simp_all add: has_pins_def gpio_keeps print_keeps)

lemma gpio_calls_gpio: "gpio_calls (gpio c hw) = gpio_calls hw @ [c]"
  by (simp add: gpio_def)

lemmas driver_frame = gpio_keeps print_keeps pin_frame has_pins_frame gpio_calls_gpio

lemma has_pins_iff:
  "has_pins hw \<longleftrightarrow>
     (\<exists>d s e a. pin hw ''DIR'' = Inr d \<and> pin hw ''STEP'' = Inr s
        \<and> pin hw ''ENABLE'' = Inr e \<and> pin hw ''ACTUATOR'' = Inr a)"
  by (auto simp: has_pins_def pin_def split: option.splits)

section \<open>The safe-mode interlock\<close>

lemma rotate_to_slot_safe:
  assumes "SAFE_MODE hw"
  shows "\<exists>hw'. rotate_to_slot slot hw = Inr hw' \<and> gpio_calls hw' = gpio_calls hw
           \<and> gpio_ready hw' = gpio_ready hw \<and> SAFE_MODE hw'"
  using assms by (simp add: rotate_to_slot_def print_def)

lemma press_actuator_safe:
  assumes "SAFE_MODE hw"
  shows "\<exists>hw'. press_actuator repetitions hw = Inr hw' \<and> gpio_calls hw' = gpio_calls hw
           \<and> gpio_ready hw' = gpio_ready hw \<and> SAFE_MODE hw'"
  using assms by (simp add: press_actuator_def print_def)

lemma motion_safe:
  assumes "SAFE_MODE hw" "is_motion c"
  shows "\<exists>hw'. do_call c hw = Inr hw' \<and> gpio_calls hw' = gpio_calls hw
           \<and> gpio_ready hw' = gpio_ready hw \<and> SAFE_MODE hw'"
  using assms rotate_to_slot_safe press_actuator_safe by (cases c) simp_all

text \<open>
  C3. Whatever sequence of \<^verbatim>\<open>rotate_to_slot\<close> and \<^verbatim>\<open>press_actuator\<close> calls runs in safe
  mode, every call returns, no call reaches the GPIO backend (the record of backend calls
  is what it was: no setup, no step pulse, no actuator write), the hardware is not
  initialised (\<^verbatim>\<open>_gpio_ready\<close> is what it was) and safe mode stays on.
\<close>

theorem safe_mode_drives_nothing:
  assumes "SAFE_MODE hw" and "\<forall>c \<in> set calls. is_motion c"
  shows "\<exists>hw'. run_calls calls hw = Inr hw' \<and> gpio_calls hw' = gpio_calls hw
           \<and> gpio_ready hw' = gpio_ready hw \<and> SAFE_MODE hw'"
  using assms
proof (induction calls arbitrary: hw)
  case Nil
  then show ?case by simp
next
  case (Cons c calls)
  then have "is_motion c" by simp
  with Cons.prems(1) obtain hw1 where
    1: "do_call c hw = Inr hw1" "gpio_calls hw1 = gpio_calls hw"
       "gpio_ready hw1 = gpio_ready hw" "SAFE_MODE hw1"
    using motion_safe by blast
  from Cons.prems(2) have "\<forall>c \<in> set calls. is_motion c" by simp
  from Cons.IH [OF 1(4) this] obtain hw' where
    "run_calls calls hw1 = Inr hw'" "gpio_calls hw' = gpio_calls hw1"
    "gpio_ready hw' = gpio_ready hw1" "SAFE_MODE hw'"
    by blast
  with 1 show ?case by simp
qed

theorem safe_mode_drives_nothing_witness:
  "\<exists>hw'. run_calls [Rotate_to_slot 5, Press_actuator 3, Rotate_to_slot 2] initial_hardware = Inr hw'
     \<and> gpio_calls hw' = [] \<and> gpio_ready hw' = False \<and> SAFE_MODE hw'"
  using safe_mode_drives_nothing
          [of initial_hardware "[Rotate_to_slot 5, Press_actuator 3, Rotate_to_slot 2]"]
  by (simp add: initial_hardware_def)

section \<open>Cleanup\<close>

lemma cleanup_not_ready: "\<not> gpio_ready hw \<Longrightarrow> cleanup hw = Inr hw"
  by (simp add: cleanup_def)

lemma cleanup_ready:
  assumes "gpio_ready hw" "pin hw ''ENABLE'' = Inr p"
  shows "cleanup hw = Inr (hw\<lparr>gpio_calls := gpio_calls hw @ [GPIO_output p True, GPIO_cleanup]\<rparr>)"
  using assms by (simp add: cleanup_def gpio_def)

lemma cleanup_keeps_flag: "cleanup hw = Inr hw' \<Longrightarrow> gpio_ready hw' = gpio_ready hw"
  by (auto simp: cleanup_def gpio_def split: if_splits sum.splits)

lemma cleanup_again:
  assumes "gpio_ready hw" "pin hw ''ENABLE'' = Inr p"
  shows "\<exists>hw1 hw2. cleanup hw = Inr hw1 \<and> cleanup hw1 = Inr hw2
           \<and> gpio_calls hw2 = gpio_calls hw1 @ [GPIO_output p True, GPIO_cleanup]"
  using assms by (simp add: cleanup_def gpio_def pin_def)

text \<open>
  C7. \<^verbatim>\<open>cleanup\<close> does nothing when the hardware was never initialised, and once it
  was, it writes the enable pin high and calls \<^verbatim>\<open>GPIO.cleanup()\<close>. It leaves
  \<^verbatim>\<open>_gpio_ready\<close> set (\<^verbatim>\<open>set_pin_map\<close> clears it after the same call), so a second
  \<^verbatim>\<open>cleanup\<close> repeats both backend calls: after one real actuator press, one
  \<^verbatim>\<open>cleanup\<close> ends the record of backend calls with the enable write and the release,
  and two end it with the pair twice.
\<close>

theorem cleanup_twice_repeats_backend_calls:
  "map_sum id gpio_calls
     (run_calls [Set_safe_mode False, Press_actuator 1, Cleanup] initial_hardware)
     = Inr [GPIO_setmode, GPIO_setup [20, 21, 16, 26], GPIO_output 16 False,
            GPIO_output 26 True, GPIO_output 26 False,
            GPIO_output 16 True, GPIO_cleanup]
   \<and> map_sum id gpio_calls
     (run_calls [Set_safe_mode False, Press_actuator 1, Cleanup, Cleanup] initial_hardware)
     = Inr [GPIO_setmode, GPIO_setup [20, 21, 16, 26], GPIO_output 16 False,
            GPIO_output 26 True, GPIO_output 26 False,
            GPIO_output 16 True, GPIO_cleanup,
            GPIO_output 16 True, GPIO_cleanup]"
  by (simp add: initial_hardware_def set_safe_mode_def print_def press_actuator_def
        ensure_gpio_def gpio_def pin_def cleanup_def)

section \<open>The turret position\<close>

lemma map_of_fold_update:
  "\<exists>y. map_of al k = Some y \<Longrightarrow>
     \<exists>y. map_of (fold (\<lambda>(k, v). AList.update k v) upd al) k = Some y"
  by (induction upd arbitrary: al) (auto simp: update_conv')

lemma set_pin_map_keeps:
  assumes "has_pins hw"
  shows "has_pins (set_pin_map new_map hw)"
    and "current_slot (set_pin_map new_map hw) = current_slot hw"
  using assms
  by (simp_all add: set_pin_map_def has_pins_def print_def gpio_def Let_def map_of_fold_update)

lemma set_safe_mode_keeps:
  "has_pins (set_safe_mode b hw) = has_pins hw"
  "current_slot (set_safe_mode b hw) = current_slot hw"
  by (simp_all add: set_safe_mode_def has_pins_def print_def)

lemma ensure_gpio_returns:
  assumes "has_pins hw"
  shows "\<exists>hw'. ensure_gpio hw = Inr hw' \<and> has_pins hw' \<and> current_slot hw' = current_slot hw
           \<and> SAFE_MODE hw' = SAFE_MODE hw"
  using assms unfolding has_pins_iff by (auto simp: ensure_gpio_def Let_def driver_frame)

lemma step_pulses_returns:
  assumes "has_pins hw"
  shows "\<exists>hw'. step_pulses n hw = Inr hw' \<and> has_pins hw' \<and> current_slot hw' = current_slot hw
           \<and> SAFE_MODE hw' = SAFE_MODE hw"
  using assms
proof (induction n arbitrary: hw)
  case 0
  then show ?case by simp
next
  case (Suc n)
  from Suc.prems obtain p where p: "pin hw ''STEP'' = Inr p" unfolding has_pins_iff by blast
  have "has_pins (gpio (GPIO_output p False) (gpio (GPIO_output p True) hw))"
    using Suc.prems by (simp add: driver_frame)
  from Suc.IH [OF this] show ?case by (simp add: p driver_frame)
qed

lemma press_loop_returns:
  assumes "has_pins hw"
  shows "\<exists>hw'. press_loop n i r hw = Inr hw' \<and> has_pins hw' \<and> current_slot hw' = current_slot hw
           \<and> SAFE_MODE hw' = SAFE_MODE hw"
  using assms
proof (induction n arbitrary: hw i)
  case 0
  then show ?case by simp
next
  case (Suc n)
  from Suc.prems obtain p where p: "pin hw ''ACTUATOR'' = Inr p" unfolding has_pins_iff by blast
  have "has_pins (print (Actuator_press (i + 1) r)
           (gpio (GPIO_output p False) (gpio (GPIO_output p True) hw)))"
    using Suc.prems by (simp add: driver_frame)
  from Suc.IH [OF this, of "i + 1"] show ?case by (simp add: p driver_frame)
qed

lemma rotate_to_slot_returns:
  assumes "has_pins hw"
  shows "\<exists>hw'. rotate_to_slot slot hw = Inr hw' \<and> has_pins hw' \<and> current_slot hw' = slot"
proof (cases "slot = current_slot hw \<or> SAFE_MODE hw")
  case True
  then show ?thesis using assms by (auto simp: rotate_to_slot_def driver_frame)
next
  case False
  from ensure_gpio_returns [OF assms] obtain hw1 where
    1: "ensure_gpio hw = Inr hw1" "has_pins hw1" by blast
  from 1(2) obtain d where d: "pin hw1 ''DIR'' = Inr d" unfolding has_pins_iff by blast
  define n where "n = nat ((slot - current_slot hw1) mod TOTAL_SLOTS * STEPS_PER_SLOT)"
  have "has_pins (gpio (GPIO_output d True) hw1)" using 1(2) by (simp add: driver_frame)
  from step_pulses_returns [OF this, of n] obtain hw2 where
    2: "step_pulses n (gpio (GPIO_output d True) hw1) = Inr hw2" "has_pins hw2" by blast
  show ?thesis using False 1 d 2 by (simp add: rotate_to_slot_def Let_def n_def driver_frame)
qed

lemma press_actuator_returns:
  assumes "has_pins hw"
  shows "\<exists>hw'. press_actuator r hw = Inr hw' \<and> has_pins hw' \<and> current_slot hw' = current_slot hw"
proof (cases "SAFE_MODE hw")
  case True
  then show ?thesis using assms by (simp add: press_actuator_def driver_frame)
next
  case False
  from ensure_gpio_returns [OF assms] obtain hw1 where
    1: "ensure_gpio hw = Inr hw1" "has_pins hw1" "current_slot hw1 = current_slot hw" by blast
  from press_loop_returns [OF 1(2), of "nat r" 0 r] obtain hw2 where
    "press_loop (nat r) 0 r hw1 = Inr hw2" "has_pins hw2" "current_slot hw2 = current_slot hw1"
    by blast
  with False 1 show ?thesis by (simp add: press_actuator_def)
qed

lemma cleanup_returns:
  assumes "has_pins hw"
  shows "\<exists>hw'. cleanup hw = Inr hw' \<and> has_pins hw' \<and> current_slot hw' = current_slot hw"
  using assms unfolding has_pins_iff by (auto simp: cleanup_def driver_frame)

lemma do_call_keeps_range:
  assumes "has_pins hw" "slot_in_range hw" "targets_turret c"
  shows "\<exists>hw'. do_call c hw = Inr hw' \<and> has_pins hw' \<and> slot_in_range hw'"
proof (cases c)
  case (Rotate_to_slot slot)
  with assms rotate_to_slot_returns [OF assms(1), of slot] show ?thesis
    by (auto simp: slot_in_range_def)
next
  case (Press_actuator r)
  with assms press_actuator_returns [OF assms(1), of r] show ?thesis
    by (auto simp: slot_in_range_def)
next
  case (Set_pin_map m)
  with assms set_pin_map_keeps [OF assms(1), of m] show ?thesis
    by (auto simp: slot_in_range_def)
next
  case (Set_safe_mode b)
  with assms set_safe_mode_keeps [of b hw] show ?thesis
    by (auto simp: slot_in_range_def)
next
  case Cleanup
  with assms cleanup_returns [OF assms(1)] show ?thesis
    by (auto simp: slot_in_range_def)
qed

lemma run_calls_keeps_range:
  assumes "has_pins hw" "slot_in_range hw" "\<forall>c \<in> set calls. targets_turret c"
  shows "\<exists>hw'. run_calls calls hw = Inr hw' \<and> has_pins hw' \<and> slot_in_range hw'"
  using assms
proof (induction calls arbitrary: hw)
  case Nil
  then show ?case by simp
next
  case (Cons c calls)
  then have "targets_turret c" by simp
  from do_call_keeps_range [OF Cons.prems(1,2) this] obtain hw1 where
    1: "do_call c hw = Inr hw1" "has_pins hw1" "slot_in_range hw1" by blast
  from Cons.prems(3) have "\<forall>c \<in> set calls. targets_turret c" by simp
  from Cons.IH [OF 1(2,3) this] show ?case by (simp add: 1(1))
qed

lemma initial_hardware_ok: "has_pins initial_hardware" "slot_in_range initial_hardware"
  by (simp_all add: initial_hardware_def has_pins_def slot_in_range_def TOTAL_SLOTS_def)

text \<open>
  C8. \<^verbatim>\<open>_current_slot\<close> starts at \<open>0\<close>, and from the initial state every sequence of
  calls of \<^verbatim>\<open>rotate_to_slot\<close>, \<^verbatim>\<open>press_actuator\<close>, \<^verbatim>\<open>set_pin_map\<close>, \<^verbatim>\<open>set_safe_mode\<close> and
  \<^verbatim>\<open>cleanup\<close> in which every rotation asks for a slot from \<open>0\<close> to \<open>11\<close> returns and
  leaves \<^verbatim>\<open>_current_slot\<close> between \<open>0\<close> and \<open>11\<close>, in safe mode and in real mode. The
  range of the requested slot is the caller's business (\<^verbatim>\<open>api_rotate\<close> checks it):
  \<^verbatim>\<open>rotate_to_slot\<close> stores the slot it is given.
\<close>

theorem current_slot_stays_in_range:
  assumes "\<forall>c \<in> set calls. targets_turret c"
  shows "0 \<le> current_slot initial_hardware \<and> current_slot initial_hardware < 12
     \<and> (\<exists>hw'. run_calls calls initial_hardware = Inr hw'
            \<and> 0 \<le> current_slot hw' \<and> current_slot hw' < 12)"
  using run_calls_keeps_range [OF initial_hardware_ok assms] initial_hardware_ok(2)
  by (auto simp: slot_in_range_def TOTAL_SLOTS_def)

theorem current_slot_stays_in_range_witness:
  "\<exists>hw'. run_calls [Set_safe_mode False, Rotate_to_slot 11, Press_actuator 2,
                     Set_pin_map [(''step'', 13)], Rotate_to_slot 0, Cleanup]
             initial_hardware = Inr hw'
     \<and> 0 \<le> current_slot hw' \<and> current_slot hw' < 12"
  using current_slot_stays_in_range
          [of "[Set_safe_mode False, Rotate_to_slot 11, Press_actuator 2,
                Set_pin_map [(''step'', 13)], Rotate_to_slot 0, Cleanup]"]
  by (simp add: TOTAL_SLOTS_def)

text \<open>
  \<^verbatim>\<open>rotate_to_slot\<close> does not check its argument: asked for slot \<open>12\<close> (or \<open>-1\<close>) it
  records that as the current slot, in safe mode and in real mode.
\<close>

theorem current_slot_leaves_range:
  "map_sum id current_slot (rotate_to_slot 12 initial_hardware) = Inr 12
   \<and> map_sum id current_slot
       (run_calls [Set_safe_mode False, Rotate_to_slot 12] initial_hardware) = Inr 12
   \<and> map_sum id current_slot (rotate_to_slot (- 1) initial_hardware) = Inr (- 1)"
  by (simp add: initial_hardware_def rotate_to_slot_def print_def set_safe_mode_def
        ensure_gpio_def gpio_def pin_def TOTAL_SLOTS_def)

section \<open>Availability and slot resolution\<close>








section \<open>Pressing the actuator\<close>

lemma count_pairs:
  "count_list (concat (replicate n [GPIO_output a True, GPIO_output a False])) (GPIO_output a True) = n"
  by (induction n) simp_all

lemma press_loop_calls:
  assumes "pin hw ''ACTUATOR'' = Inr a"
  shows "\<exists>hw'. press_loop n i r hw = Inr hw'
           \<and> gpio_calls hw' = gpio_calls hw @ concat (replicate n [GPIO_output a True, GPIO_output a False])"
  using assms
proof (induction n arbitrary: hw i)
  case 0
  then show ?case by simp
next
  case (Suc n)
  let ?hw = "print (Actuator_press (i + 1) r) (gpio (GPIO_output a False) (gpio (GPIO_output a True) hw))"
  have "pin ?hw ''ACTUATOR'' = Inr a" using Suc.prems by (simp add: driver_frame)
  from Suc.IH [OF this, of "i + 1"] obtain hw' where
    "press_loop n (i + 1) r ?hw = Inr hw'"
    "gpio_calls hw' = gpio_calls ?hw @ concat (replicate n [GPIO_output a True, GPIO_output a False])"
    by blast
  then show ?case using Suc.prems by (simp add: driver_frame)
qed

lemma ensure_gpio_calls:
  assumes "has_pins hw"
  shows "\<exists>hw' e. ensure_gpio hw = Inr hw' \<and> pin_map hw' = pin_map hw
           \<and> (gpio_calls hw' = gpio_calls hw
                \<or> gpio_calls hw' = gpio_calls hw
                     @ [GPIO_setmode, GPIO_setup (map snd (pin_map hw)), GPIO_output e False])"
  using assms unfolding has_pins_iff by (auto simp: ensure_gpio_def Let_def driver_frame)

lemma press_actuator_count:
  assumes "\<not> SAFE_MODE hw" "has_pins hw" "pin hw ''ACTUATOR'' = Inr a"
  shows "\<exists>hw'. press_actuator r hw = Inr hw'
           \<and> count_list (gpio_calls hw') (GPIO_output a True)
               = count_list (gpio_calls hw) (GPIO_output a True) + nat r"
proof -
  from ensure_gpio_calls [OF assms(2)] obtain hw1 e where
    1: "ensure_gpio hw = Inr hw1" "pin_map hw1 = pin_map hw"
       "gpio_calls hw1 = gpio_calls hw
          \<or> gpio_calls hw1 = gpio_calls hw
               @ [GPIO_setmode, GPIO_setup (map snd (pin_map hw)), GPIO_output e False]"
    by blast
  then have c: "count_list (gpio_calls hw1) (GPIO_output a True)
                  = count_list (gpio_calls hw) (GPIO_output a True)"
    by auto
  have "pin hw1 ''ACTUATOR'' = Inr a" using assms(3) 1(2) by (simp add: pin_def)
  from press_loop_calls [OF this, of "nat r" 0 r] obtain hw2 where
    2: "press_loop (nat r) 0 r hw1 = Inr hw2"
       "gpio_calls hw2 = gpio_calls hw1
          @ concat (replicate (nat r) [GPIO_output a True, GPIO_output a False])"
    by blast
  have "press_actuator r hw = Inr hw2" using assms(1) 1(1) 2(1) by (simp add: press_actuator_def)
  moreover have "count_list (gpio_calls hw2) (GPIO_output a True)
               = count_list (gpio_calls hw) (GPIO_output a True) + nat r"
    by (simp add: 2(2) c count_pairs)
  ultimately show ?thesis by blast
qed

lemma py_round_below_half: "q < 1 / 2 \<Longrightarrow> py_round q \<le> 0"
proof -
  assume q: "q < 1 / 2"
  have fl: "of_int \<lfloor>q\<rfloor> \<le> q" by linarith
  then have "(of_int \<lfloor>q\<rfloor> :: rat) < 1" using q by linarith
  then have f: "\<lfloor>q\<rfloor> \<le> 0" by linarith
  show ?thesis
  proof (cases "\<lfloor>q\<rfloor> = 0")
    case True
    then have "q - of_int \<lfloor>q\<rfloor> < 1 / 2" using q by simp
    then show ?thesis using True by (simp add: py_round_def Let_def)
  next
    case False
    then have "\<lfloor>q\<rfloor> + 1 \<le> 0" using f by linarith
    then show ?thesis using f by (simp add: py_round_def Let_def)
  qed
qed

lemma dispense_loop_slot:
  assumes "avail i cfg" "slot_for i cfg = Some slot"
  shows "dispense_loop cfg nm idx ((i, qty) # rest) flashed hw =
           (case rotate_to_slot slot hw of
              Inl e \<Rightarrow> Inl e
            | Inr hw1 \<Rightarrow>
                (case press_actuator (py_round qty) hw1 of
                   Inl e \<Rightarrow> Inl e
                 | Inr hw2 \<Rightarrow>
                     dispense_loop cfg nm (Suc idx) rest
                       (flashed @ [if idx = 0 then Pulling i else Adding i, Dispensing qty]) hw2))"
  using assms by (cases "idx = 0") (simp_all add: Let_def cong: sum.case_cong)

text \<open>
  C10. For an available ingredient that resolves to a slot, the loop of \<^verbatim>\<open>make_drink\<close>
  rotates to the slot and calls \<^verbatim>\<open>press_actuator\<close> with \<^verbatim>\<open>round(qty)\<close>, the quantity in
  ounces; the shot size plays no part. In real mode with the four pins mapped the call
  writes the actuator pin high as many times as that number (none for a number below
  one); in safe mode it prints the number and drives nothing. \<^verbatim>\<open>round\<close> gives an integer
  at distance at most one half, the even one at distance exactly one half: \<open>2.5\<close> gives
  \<open>2\<close>, \<open>3.5\<close> gives \<open>4\<close>, and a quantity below \<open>0.5\<close> gives no press.
\<close>

theorem presses_are_ounces_rounded_half_even:
  assumes "avail i cfg" and "slot_for i cfg = Some slot"
  shows "dispense_loop cfg nm idx ((i, qty) # rest) flashed hw =
           (case rotate_to_slot slot hw of
              Inl e \<Rightarrow> Inl e
            | Inr hw1 \<Rightarrow>
                (case press_actuator (py_round qty) hw1 of
                   Inl e \<Rightarrow> Inl e
                 | Inr hw2 \<Rightarrow>
                     dispense_loop cfg nm (Suc idx) rest
                       (flashed @ [if idx = 0 then Pulling i else Adding i, Dispensing qty]) hw2))
    \<and> (\<forall>hw1 a. \<not> SAFE_MODE hw1 \<and> has_pins hw1 \<and> pin hw1 ''ACTUATOR'' = Inr a \<longrightarrow>
          (\<exists>hw2. press_actuator (py_round qty) hw1 = Inr hw2
             \<and> count_list (gpio_calls hw2) (GPIO_output a True)
                 = count_list (gpio_calls hw1) (GPIO_output a True) + nat (py_round qty)))
    \<and> (\<forall>hw1. SAFE_MODE hw1 \<longrightarrow>
          press_actuator (py_round qty) hw1 = Inr (print (Safe_would_press (py_round qty)) hw1))
    \<and> \<bar>of_int (py_round qty) - qty\<bar> \<le> 1 / 2
    \<and> (\<bar>of_int (py_round qty) - qty\<bar> = 1 / 2 \<longrightarrow> even (py_round qty))
    \<and> py_round (5 / 2) = 2 \<and> py_round (7 / 2) = 4
    \<and> (qty < 1 / 2 \<longrightarrow> nat (py_round qty) = 0)"
proof -
  have 1: "\<exists>hw2. press_actuator (py_round qty) hw1 = Inr hw2
             \<and> count_list (gpio_calls hw2) (GPIO_output a True)
                 = count_list (gpio_calls hw1) (GPIO_output a True) + nat (py_round qty)"
    if "\<not> SAFE_MODE hw1 \<and> has_pins hw1 \<and> pin hw1 ''ACTUATOR'' = Inr a" for hw1 a
    using that press_actuator_count by blast
  have 2: "press_actuator (py_round qty) hw1 = Inr (print (Safe_would_press (py_round qty)) hw1)"
    if "SAFE_MODE hw1" for hw1
    using that by (simp add: press_actuator_def)
  have 3: "py_round (5 / 2) = 2" "py_round (7 / 2) = 4"
    by (simp_all add: py_round_def Let_def)
  have 4: "nat (py_round qty) = 0" if "qty < 1 / 2"
    using py_round_below_half [OF that] by simp
  show ?thesis
    using dispense_loop_slot [OF assms] 1 2 3 4 py_round_close [of qty] py_round_tie_even [of qty]
    by blast
qed


theorem presses_are_ounces_rounded_half_even_witness:
  "map_sum id (\<lambda>r. count_list (gpio_calls (snd r)) (GPIO_output 26 True))
     (dispense_loop bar ''Martini'' 0 [(''gin'', 5 / 2)] [] (set_safe_mode False initial_hardware))
     = Inr 2
   \<and> map_sum id (\<lambda>r. printed (snd r))
     (dispense_loop bar ''Martini'' 0 [(''gin'', 7 / 2)] [] initial_hardware)
     = Inr [Safe_would_press 4]
   \<and> (\<exists>hw2. press_actuator (py_round (5 / 2)) (set_safe_mode False initial_hardware) = Inr hw2
          \<and> count_list (gpio_calls hw2) (GPIO_output 26 True) = 2)
   \<and> press_actuator (py_round (7 / 2)) initial_hardware
        = Inr (print (Safe_would_press 4) initial_hardware)
   \<and> \<bar>rat_of_int (py_round (5 / 2)) - 5 / 2\<bar> = 1 / 2
   \<and> even (py_round (5 / 2))
   \<and> nat (py_round (1 / 4)) = 0"
proof -
  have a: "avail ''gin'' bar" by code_simp
  have s: "slot_for ''gin'' bar = Some 0" by code_simp
  note t = presses_are_ounces_rounded_half_even [OF a s]
  note t1 = t [THEN conjunct1]
  have r: "py_round (5 / 2) = 2" "py_round (7 / 2) = 4"
    by (simp_all add: py_round_def Let_def)
  have 1: "map_sum id (\<lambda>r. count_list (gpio_calls (snd r)) (GPIO_output 26 True))
     (dispense_loop bar ''Martini'' 0 [(''gin'', 5 / 2)] [] (set_safe_mode False initial_hardware))
     = Inr 2"
    unfolding t1 r
    by (simp add: initial_hardware_def set_safe_mode_def rotate_to_slot_def print_def
          press_actuator_def ensure_gpio_def gpio_def pin_def eval_nat_numeral)
  have 2: "map_sum id (\<lambda>r. printed (snd r))
     (dispense_loop bar ''Martini'' 0 [(''gin'', 7 / 2)] [] initial_hardware)
     = Inr [Safe_would_press 4]"
    unfolding t1 r
    by (simp add: initial_hardware_def rotate_to_slot_def print_def press_actuator_def)
  have real: "\<not> SAFE_MODE (set_safe_mode False initial_hardware)
      \<and> has_pins (set_safe_mode False initial_hardware)
      \<and> pin (set_safe_mode False initial_hardware) ''ACTUATOR'' = Inr 26"
    by (simp add: set_safe_mode_def initial_hardware_def print_def has_pins_def pin_def)
  from t [where qty = "5 / 2", THEN conjunct2, THEN conjunct1, rule_format, OF real]
  have 3: "\<exists>hw2. press_actuator (py_round (5 / 2)) (set_safe_mode False initial_hardware) = Inr hw2
          \<and> count_list (gpio_calls hw2) (GPIO_output 26 True) = 2"
    by (simp add: r set_safe_mode_def initial_hardware_def print_def numeral_2_eq_2)
  have safe: "SAFE_MODE initial_hardware" by (simp add: initial_hardware_def)
  from t [where qty = "7 / 2", THEN conjunct2, THEN conjunct2, THEN conjunct1, rule_format, OF safe]
  have 4: "press_actuator (py_round (7 / 2)) initial_hardware
        = Inr (print (Safe_would_press 4) initial_hardware)"
    by (simp add: r)
  have tie: "\<bar>rat_of_int (py_round (5 / 2)) - 5 / 2\<bar> = 1 / 2" by (simp add: r)
  from t [where qty = "5 / 2", THEN conjunct2, THEN conjunct2, THEN conjunct2, THEN conjunct2,
          THEN conjunct1, rule_format, OF tie]
  have 5: "even (py_round (5 / 2))" .
  have q: "(1 / 4 :: rat) < 1 / 2" by simp
  from t [where qty = "1 / 4", THEN conjunct2, THEN conjunct2, THEN conjunct2, THEN conjunct2,
          THEN conjunct2, THEN conjunct2, THEN conjunct2, rule_format, OF q]
  have 6: "nat (py_round (1 / 4)) = 0" .
  from 1 2 3 4 tie 5 6 show ?thesis by blast
qed

section \<open>A martini, end to end\<close>

lemma scale_martini:
  "scale [gin, vermouth] = Inr [gin\<lparr>qty_oz := 6\<rparr>, vermouth\<lparr>qty_oz := 3 / 2\<rparr>]"
  by (simp add: scale_def liquids_def gin_def vermouth_def fdiv_def round2_def)

lemma scale_for_slots_martini:
  assumes "Some ''gin'' \<in> set (slots cfg)" "shot_size cfg = Some (3 / 2)"
  shows "scale_for_slots (martini [gin\<lparr>qty_oz := 6\<rparr>, vermouth\<lparr>qty_oz := 3 / 2\<rparr>]) cfg
           = Inr [gin\<lparr>qty_oz := 6\<rparr>, vermouth\<lparr>qty_oz := 3 / 2\<rparr>]"
proof (cases "Some ''vermouth'' \<in> set (slots cfg)")
  case True
  with assms show ?thesis
    by (simp add: scale_for_slots_def shot_of_def slot_liq_def martini_def gin_def vermouth_def
          nearest_multiple_def fdiv_def round2_def)
next
  case False
  with assms show ?thesis
    by (simp add: scale_for_slots_def shot_of_def slot_liq_def martini_def gin_def vermouth_def
          nearest_multiple_def fdiv_def round2_def)
qed

lemma lower_names:
  "lower ''Martini'' = ''martini''" "lower ''martini'' = ''martini''" "lower ''gin'' = ''gin''"
  by code_simp+

lemma make_drink_martini:
  assumes "Some ''gin'' \<in> set (slots cfg)"
  shows "make_drink cfg [martini [gin\<lparr>qty_oz := 6\<rparr>, vermouth\<lparr>qty_oz := 3 / 2\<rparr>]] ''martini'' hw =
           (case rotate_to_slot (index_of (slots cfg) (Some ''gin''))
                   (set_safe_mode (safe_mode cfg) (set_pin_map (pins cfg) hw)) of
              Inl e \<Rightarrow> Inl e
            | Inr hw1 \<Rightarrow>
                (case press_actuator 6 hw1 of
                   Inl e \<Rightarrow> Inl e
                 | Inr hw2 \<Rightarrow>
                     dispense_loop cfg ''Martini'' 1 [(''vermouth'', 3 / 2)]
                       [Pulling ''gin'', Dispensing 6] hw2))"
proof -
  have a: "avail ''gin'' cfg" using assms by (simp add: avail_def lower_names)
  have s: "slot_for ''gin'' cfg = Some (index_of (slots cfg) (Some ''gin''))"
    using assms by (simp add: slot_for_def lower_names)
  have f: "find (\<lambda>d. lower (name d) = lower ''martini'')
             [martini [gin\<lparr>qty_oz := 6\<rparr>, vermouth\<lparr>qty_oz := 3 / 2\<rparr>]]
           = Some (martini [gin\<lparr>qty_oz := 6\<rparr>, vermouth\<lparr>qty_oz := 3 / 2\<rparr>])"
    by (simp add: martini_def lower_names)
  have p: "parse_ingredients (martini [gin\<lparr>qty_oz := 6\<rparr>, vermouth\<lparr>qty_oz := 3 / 2\<rparr>])
           = [(''gin'', 6), (''vermouth'', 3 / 2)]"
    by (simp add: parse_ingredients_def martini_def gin_def vermouth_def)
  have n: "name (martini [gin\<lparr>qty_oz := 6\<rparr>, vermouth\<lparr>qty_oz := 3 / 2\<rparr>]) = ''Martini''"
    by (simp add: martini_def)
  show ?thesis
    unfolding make_drink_def Let_def f option.case p n
    by (simp add: dispense_loop_slot [OF a s] del: dispense_loop.simps cong: sum.case_cong)
qed


lemma press_loop_numeral:
  "press_loop (numeral k) i repetitions hw =
     (case pin hw ''ACTUATOR'' of
        Inl e \<Rightarrow> Inl e
      | Inr p \<Rightarrow>
          press_loop (pred_numeral k) (i + 1) repetitions
            (print (Actuator_press (i + 1) repetitions)
               (gpio (GPIO_output p False) (gpio (GPIO_output p True) hw))))"
  by (simp add: numeral_eq_Suc)

text \<open>
  C2. The recipe gin \<open>2.0\<close> oz, vermouth \<open>0.5\<close> oz is normalised to gin \<open>6.0\<close>, vermouth
  \<open>1.5\<close>. With gin in a slot and a shot size of \<open>1.5\<close> the slot-aware rescaling leaves
  these quantities as they are. \<^verbatim>\<open>make_drink\<close> on the normalised recipe rotates to the
  slot of gin and calls \<^verbatim>\<open>press_actuator\<close> with \<^verbatim>\<open>round(6.0)\<close>, that is \<open>6\<close>: one press
  for each ounce, not one for each shot. In real mode with the four pins mapped the
  actuator pin is then written high six more times.
\<close>

theorem martini_end_to_end:
  assumes "Some ''gin'' \<in> set (slots cfg)" and "shot_size cfg = Some (3 / 2)"
  shows "scale [gin, vermouth] = Inr [gin\<lparr>qty_oz := 6\<rparr>, vermouth\<lparr>qty_oz := 3 / 2\<rparr>]
    \<and> scale_for_slots (martini [gin\<lparr>qty_oz := 6\<rparr>, vermouth\<lparr>qty_oz := 3 / 2\<rparr>]) cfg
        = Inr [gin\<lparr>qty_oz := 6\<rparr>, vermouth\<lparr>qty_oz := 3 / 2\<rparr>]
    \<and> make_drink cfg [martini [gin\<lparr>qty_oz := 6\<rparr>, vermouth\<lparr>qty_oz := 3 / 2\<rparr>]] ''martini'' hw =
           (case rotate_to_slot (index_of (slots cfg) (Some ''gin''))
                   (set_safe_mode (safe_mode cfg) (set_pin_map (pins cfg) hw)) of
              Inl e \<Rightarrow> Inl e
            | Inr hw1 \<Rightarrow>
                (case press_actuator 6 hw1 of
                   Inl e \<Rightarrow> Inl e
                 | Inr hw2 \<Rightarrow>
                     dispense_loop cfg ''Martini'' 1 [(''vermouth'', 3 / 2)]
                       [Pulling ''gin'', Dispensing 6] hw2))
    \<and> (\<forall>hw1 a. \<not> SAFE_MODE hw1 \<and> has_pins hw1 \<and> pin hw1 ''ACTUATOR'' = Inr a \<longrightarrow>
          (\<exists>hw2. press_actuator 6 hw1 = Inr hw2
             \<and> count_list (gpio_calls hw2) (GPIO_output a True)
                 = count_list (gpio_calls hw1) (GPIO_output a True) + 6))"
proof -
  have "\<exists>hw2. press_actuator 6 hw1 = Inr hw2
             \<and> count_list (gpio_calls hw2) (GPIO_output a True)
                 = count_list (gpio_calls hw1) (GPIO_output a True) + 6"
    if "\<not> SAFE_MODE hw1 \<and> has_pins hw1 \<and> pin hw1 ''ACTUATOR'' = Inr a" for hw1 a
    using that press_actuator_count [of hw1 a 6] by simp
  then show ?thesis
    using scale_martini scale_for_slots_martini [OF assms] make_drink_martini [OF assms(1)]
    by blast
qed

theorem martini_end_to_end_witness:
  "scale [gin, vermouth] = Inr [gin\<lparr>qty_oz := 6\<rparr>, vermouth\<lparr>qty_oz := 3 / 2\<rparr>]
   \<and> scale_for_slots (martini [gin\<lparr>qty_oz := 6\<rparr>, vermouth\<lparr>qty_oz := 3 / 2\<rparr>]) bar
        = Inr [gin\<lparr>qty_oz := 6\<rparr>, vermouth\<lparr>qty_oz := 3 / 2\<rparr>]
   \<and> map_sum id (\<lambda>r. count_list (gpio_calls (snd r)) (GPIO_output 26 True))
        (make_drink bar [martini [gin\<lparr>qty_oz := 6\<rparr>, vermouth\<lparr>qty_oz := 3 / 2\<rparr>]] ''martini''
           initial_hardware)
        = Inr 6
   \<and> (\<exists>hw2. press_actuator 6 (set_safe_mode False initial_hardware) = Inr hw2
          \<and> count_list (gpio_calls hw2) (GPIO_output 26 True) = 6)"
proof -
  have g: "Some ''gin'' \<in> set (slots bar)" by (simp add: bar_def)
  have s: "shot_size bar = Some (3 / 2)" by (simp add: bar_def)
  note t = martini_end_to_end [OF g s, of initial_hardware]
  have i: "index_of (slots bar) (Some ''gin'') = 0" by (simp add: index_of_def bar_def)
  have a: "avail ''vermouth'' bar" "slot_for ''vermouth'' bar = None" by code_simp+
  have h: "set_safe_mode (safe_mode bar) (set_pin_map (pins bar) initial_hardware) =
      \<lparr>pin_map = [(''DIR'', 20), (''STEP'', 21), (''ENABLE'', 16), (''ACTUATOR'', 26)],
       SAFE_MODE = False, current_slot = 0, gpio_ready = False, gpio_calls = [],
       printed = [Pin_map_updated [(''DIR'', 20), (''STEP'', 21), (''ENABLE'', 16), (''ACTUATOR'', 26)],
                  Safe_mode_set False]\<rparr>"
    by code_simp
  have real: "\<not> SAFE_MODE (set_safe_mode False initial_hardware)
      \<and> has_pins (set_safe_mode False initial_hardware)
      \<and> pin (set_safe_mode False initial_hardware) ''ACTUATOR'' = Inr 26"
    by (simp add: set_safe_mode_def initial_hardware_def print_def has_pins_def pin_def)
  from t [THEN conjunct2, THEN conjunct2, THEN conjunct2, rule_format, OF real]
  have p: "\<exists>hw2. press_actuator 6 (set_safe_mode False initial_hardware) = Inr hw2
          \<and> count_list (gpio_calls hw2) (GPIO_output 26 True) = 6"
    by (simp add: set_safe_mode_def initial_hardware_def print_def)
  have "map_sum id (\<lambda>r. count_list (gpio_calls (snd r)) (GPIO_output 26 True))
        (make_drink bar [martini [gin\<lparr>qty_oz := 6\<rparr>, vermouth\<lparr>qty_oz := 3 / 2\<rparr>]] ''martini''
           initial_hardware)
        = Inr 6"
    unfolding t [THEN conjunct2, THEN conjunct2, THEN conjunct1] i h
    by (simp add: a rotate_to_slot_def print_def press_actuator_def ensure_gpio_def gpio_def
          pin_def press_loop_numeral)
  with t p show ?thesis by blast
qed

text \<open>
  Four presses do not occur. In real mode, with gin in slot \<open>0\<close>, the backend
  sees the initialisation and then six pulses on the actuator pin; in safe mode, with gin
  in slot \<open>2\<close>, the driver reports the rotation from slot \<open>0\<close> to slot \<open>2\<close> and six presses.
\<close>

theorem martini_gin_gets_six_presses:
  "map_sum id (\<lambda>r. gpio_calls (snd r))
     (make_drink bar [martini [gin\<lparr>qty_oz := 6\<rparr>, vermouth\<lparr>qty_oz := 3 / 2\<rparr>]] ''martini''
        initial_hardware)
     = Inr [GPIO_setmode, GPIO_setup [20, 21, 16, 26], GPIO_output 16 False,
            GPIO_output 26 True, GPIO_output 26 False, GPIO_output 26 True, GPIO_output 26 False,
            GPIO_output 26 True, GPIO_output 26 False, GPIO_output 26 True, GPIO_output 26 False,
            GPIO_output 26 True, GPIO_output 26 False, GPIO_output 26 True, GPIO_output 26 False]
   \<and> map_sum id (\<lambda>r. count_list (gpio_calls (snd r)) (GPIO_output 26 True))
     (make_drink bar [martini [gin\<lparr>qty_oz := 6\<rparr>, vermouth\<lparr>qty_oz := 3 / 2\<rparr>]] ''martini''
        initial_hardware)
     \<noteq> Inr 4
   \<and> map_sum id (\<lambda>r. printed (snd r))
     (make_drink (bar\<lparr>slots := [None, None, Some ''gin''], safe_mode := True\<rparr>)
        [martini [gin\<lparr>qty_oz := 6\<rparr>, vermouth\<lparr>qty_oz := 3 / 2\<rparr>]] ''martini'' initial_hardware)
     = Inr [Pin_map_updated [(''DIR'', 20), (''STEP'', 21), (''ENABLE'', 16), (''ACTUATOR'', 26)],
            Safe_mode_set True, Safe_would_rotate 0 2, Safe_would_press 6]"
  by code_simp

section \<open>The measure parser\<close>

lemma py_float_nonneg: "0 \<le> py_float s"
  by (simp add: py_float_def Let_def)

lemma round2_nonneg: "0 \<le> x \<Longrightarrow> 0 \<le> round2 x"
  using round2_ge [of 0 x] by simp

lemma convert_nonneg: "0 \<le> q \<Longrightarrow> 0 \<le> convert u q"
  by (simp add: convert_def)

lemma fdiv_cases:
  "fdiv a b = Inl e \<Longrightarrow> e = ZeroDivisionError \<and> b = 0"
  "fdiv a b = Inr q \<Longrightarrow> q = a / b \<and> b \<noteq> 0"
  by (auto simp: fdiv_def split: if_splits)

lemma qty_to_oz_error: "qty_to_oz r = Inl e \<Longrightarrow> e = ZeroDivisionError"
  by (auto simp: qty_to_oz_def Let_def
      split: option.splits if_splits sum.splits prod.splits dest: fdiv_cases)

lemma qty_to_oz_nonneg: "qty_to_oz r = Inr q \<Longrightarrow> 0 \<le> q"
  by (auto simp: qty_to_oz_def Let_def py_float_nonneg
      split: option.splits if_splits sum.splits prod.splits
      dest!: fdiv_cases intro!: round2_nonneg convert_nonneg)

text \<open>
  C5. \<^verbatim>\<open>_qty_to_oz\<close> returns \<open>0.0\<close> for a missing or empty measure, for garnish text and
  for text that does not start with a number, and a rounded quantity for the measures
  it understands. It raises \<^verbatim>\<open>ZeroDivisionError\<close> on a fraction with a zero denominator,
  simple (\<open>1/0\<close>) or mixed (\<open>2 1/0 oz\<close>): the two divisions are not guarded.
\<close>

theorem qty_to_oz_raises_on_zero_denominator:
  "qty_to_oz (Some ''1/0'') = Inl ZeroDivisionError
   \<and> qty_to_oz (Some ''2 1/0 oz'') = Inl ZeroDivisionError
   \<and> qty_to_oz None = Inr 0
   \<and> qty_to_oz (Some '''') = Inr 0
   \<and> qty_to_oz (Some ''1 wedge'') = Inr 0
   \<and> qty_to_oz (Some ''2 dashes'') = Inr 0
   \<and> qty_to_oz (Some ''Juice of 1/2'') = Inr 0
   \<and> qty_to_oz (Some ''2 1/2 oz'') = Inr (5 / 2)
   \<and> qty_to_oz (Some ''30 ml'') = Inr (101 / 100)"
  by code_simp

end
